theory Spec2Isabelle
  imports Main
begin

section \<open>The undo/redo form component (src/app/home/home.component.ts)\<close>

subsection \<open>Data model\<close>

text \<open>
  \<^verbatim>\<open>undoRedoFormValue\<close>: the value of the form group, one \<^verbatim>\<open>string | null\<close> per
  control. \<open>None\<close> is \<^verbatim>\<open>null\<close>.
\<close>

record snapshot =
  name :: "string option"
  email :: "string option"
  country :: "string option"

text \<open>
  The two calls of \<^verbatim>\<open>toastr.success\<close>: the message of \<^verbatim>\<open>undo\<close> and the message
  of \<^verbatim>\<open>redo\<close>.
\<close>

datatype notification = UndoDone | RedoDone

text \<open>
  The fields of \<^verbatim>\<open>HomeComponent\<close> that change. \<open>myForm\<close> is declared
  \<^verbatim>\<open>myForm!: FormGroup\<close>: it is \<^verbatim>\<open>undefined\<close> (\<open>None\<close>) until \<^verbatim>\<open>ngOnInit\<close>
  assigns it, and afterwards the model keeps the value of the group (\<^verbatim>\<open>myForm.value\<close>).
  \<open>currentIndex\<close> is a JavaScript number that only ever holds integers.
  \<open>toasts\<close> is the log of the notifications handed to the \<^verbatim>\<open>ToastrService\<close>.
  The field \<^verbatim>\<open>countries\<close> is a constant list that no method reads.
\<close>

record component =
  myForm :: "snapshot option"
  history :: "snapshot list"
  currentIndex :: int
  toasts :: "notification list"

text \<open>
  Reading a property of \<^verbatim>\<open>undefined\<close> throws a \<^verbatim>\<open>TypeError\<close>. A method that throws
  leaves the component in the state it had reached; that state comes with the error.
\<close>

datatype error = TypeError

type_synonym outcome = "(error \<times> component) + component"

definition state_after :: "outcome \<Rightarrow> component" where
  "state_after r = (case r of Inl (e, s) \<Rightarrow> s | Inr s \<Rightarrow> s)"

definition and_then :: "outcome \<Rightarrow> (component \<Rightarrow> outcome) \<Rightarrow> outcome" where
  "and_then r f = (case r of Inl e \<Rightarrow> Inl e | Inr s \<Rightarrow> f s)"

subsection \<open>JavaScript arrays\<close>

text \<open>\<^verbatim>\<open>xs[i]\<close>: \<^verbatim>\<open>undefined\<close> (\<open>None\<close>) outside \<open>0 \<le> i < xs.length\<close>.\<close>

definition js_index :: "'a list \<Rightarrow> int \<Rightarrow> 'a option" where
  "js_index xs i = (if 0 \<le> i \<and> i < int (length xs) then Some (xs ! nat i) else None)"

text \<open>
  The array left by \<^verbatim>\<open>xs.splice(start)\<close>: a negative \<open>start\<close> counts from the end,
  the start is clamped to \<open>[0, xs.length]\<close>, and everything from it on is removed.
\<close>

definition splice :: "'a list \<Rightarrow> int \<Rightarrow> 'a list" where
  "splice xs start =
     (let len = int (length xs);
          actualStart = (if start < 0 then max (len + start) 0 else min start len)
      in take (nat actualStart) xs)"

subsection \<open>The methods\<close>

text \<open>
  \<^verbatim>\<open>
  saveState() {
    const currentState = this.myForm.value;
    if (this.currentIndex < this.history.length - 1) {
      this.history.splice(this.currentIndex + 1);
    }
    this.history.push(currentState);
    this.currentIndex = this.history.length - 1;
  }
  \<close>
\<close>

definition saveState :: "component \<Rightarrow> outcome" where
  "saveState s =
     (case myForm s of
        None \<Rightarrow> Inl (TypeError, s)
      | Some currentState \<Rightarrow>
          let h = (if currentIndex s < int (length (history s)) - 1
                   then splice (history s) (currentIndex s + 1)
                   else history s);
              h' = h @ [currentState]
          in Inr (s\<lparr>history := h', currentIndex := int (length h') - 1\<rparr>))"

definition canUndo :: "component \<Rightarrow> bool" where
  "canUndo s = (currentIndex s > 0)"

definition canRedo :: "component \<Rightarrow> bool" where
  "canRedo s = (currentIndex s < int (length (history s)) - 1)"

text \<open>
  \<^verbatim>\<open>this.myForm.setValue(v, { emitEvent: false })\<close>: throws when there is no form
  or when \<open>v\<close> is \<^verbatim>\<open>undefined\<close>; otherwise the group takes the value \<open>v\<close>, and with
  \<^verbatim>\<open>emitEvent: false\<close> the subscriber of \<^verbatim>\<open>valueChanges\<close> is not called.
\<close>

definition setValue :: "snapshot option \<Rightarrow> component \<Rightarrow> outcome" where
  "setValue v s =
     (case myForm s of
        None \<Rightarrow> Inl (TypeError, s)
      | Some old \<Rightarrow>
          (case v of
             None \<Rightarrow> Inl (TypeError, s)
           | Some x \<Rightarrow> Inr (s\<lparr>myForm := Some x\<rparr>)))"

definition success :: "notification \<Rightarrow> component \<Rightarrow> outcome" where
  "success n s = Inr (s\<lparr>toasts := toasts s @ [n]\<rparr>)"

text \<open>
  \<^verbatim>\<open>
  undo() {
    if (this.canUndo()) {
      this.currentIndex--;
      this.myForm.setValue(this.history[this.currentIndex], { emitEvent: false });
      this.toastr.success(...);
    }
  }
  \<close>
\<close>

definition undo :: "component \<Rightarrow> outcome" where
  "undo s =
     (if canUndo s then
        (let s1 = s\<lparr>currentIndex := currentIndex s - 1\<rparr>
         in and_then (setValue (js_index (history s1) (currentIndex s1)) s1)
              (success UndoDone))
      else Inr s)"

text \<open>
  \<^verbatim>\<open>
  redo() {
    if (this.canRedo()) {
      this.currentIndex++;
      this.myForm.setValue(this.history[this.currentIndex], { emitEvent: false });
      this.toastr.success(...);
    }
  }
  \<close>
\<close>

definition redo :: "component \<Rightarrow> outcome" where
  "redo s =
     (if canRedo s then
        (let s1 = s\<lparr>currentIndex := currentIndex s + 1\<rparr>
         in and_then (setValue (js_index (history s1) (currentIndex s1)) s1)
              (success RedoDone))
      else Inr s)"

subsection \<open>Life cycle and events\<close>

text \<open>The component as its field initialisers leave it, before \<^verbatim>\<open>ngOnInit\<close>.\<close>

definition fresh :: component where
  "fresh = \<lparr>myForm = None, history = [], currentIndex = - 1, toasts = []\<rparr>"

definition emptyForm :: snapshot where
  "emptyForm = \<lparr>name = Some [], email = Some [], country = Some []\<rparr>"

text \<open>
  \<^verbatim>\<open>ngOnInit\<close> builds the group with three empty strings, calls \<^verbatim>\<open>saveState\<close> and
  subscribes \<^verbatim>\<open>saveState\<close> to \<^verbatim>\<open>valueChanges\<close>. The subscription is what \<open>edit\<close>
  below stands for.
\<close>

definition ngOnInit :: "component \<Rightarrow> outcome" where
  "ngOnInit s = saveState (s\<lparr>myForm := Some emptyForm\<rparr>)"

datatype field = Name | Email | Country

fun setControl :: "field \<Rightarrow> string option \<Rightarrow> snapshot \<Rightarrow> snapshot" where
  "setControl Name v x = x\<lparr>name := v\<rparr>"
| "setControl Email v x = x\<lparr>email := v\<rparr>"
| "setControl Country v x = x\<lparr>country := v\<rparr>"

text \<open>
  An edit: the user changes one control, the group's value follows, \<^verbatim>\<open>valueChanges\<close>
  emits and the subscriber runs \<^verbatim>\<open>saveState\<close>. Without a form there is no control to
  change and no subscription, so nothing happens.
\<close>

definition edit :: "field \<Rightarrow> string option \<Rightarrow> component \<Rightarrow> outcome" where
  "edit f v s =
     (case myForm s of
        None \<Rightarrow> Inr s
      | Some x \<Rightarrow> saveState (s\<lparr>myForm := Some (setControl f v x)\<rparr>))"

text \<open>
  What can happen to an initialised component: a direct call of \<^verbatim>\<open>saveState\<close>, an
  edit, \<^verbatim>\<open>undo\<close>, \<^verbatim>\<open>redo\<close>. A sequence of them runs from left to right; after a
  throw the component goes on from the state the throwing method left.
\<close>

datatype action = SaveState | Edit field "string option" | Undo | Redo

fun step :: "action \<Rightarrow> component \<Rightarrow> outcome" where
  "step SaveState s = saveState s"
| "step (Edit f v) s = edit f v s"
| "step Undo s = undo s"
| "step Redo s = redo s"

definition run :: "action list \<Rightarrow> component \<Rightarrow> component" where
  "run acts s = foldl (\<lambda>s a. state_after (step a s)) s acts"

definition initialized :: component where
  "initialized = state_after (ngOnInit fresh)"

subsection \<open>Auxiliary notions\<close>

text \<open>
  The cursor indexes the history and the form shows the snapshot under the cursor.
\<close>

definition consistent :: "component \<Rightarrow> bool" where
  "consistent s =
     (0 \<le> currentIndex s \<and> currentIndex s < int (length (history s)) \<and>
      myForm s = Some (history s ! nat (currentIndex s)))"

text \<open>The form value with the given name and the other two controls empty.\<close>

definition named :: "string \<Rightarrow> snapshot" where
  "named n = \<lparr>name = Some n, email = Some [], country = Some []\<rparr>"

section \<open>The methods, equationally\<close>

lemma saveState_Some:
  assumes "myForm s = Some v" and "- 1 \<le> currentIndex s"
  shows "saveState s =
     Inr (s\<lparr>history := take (nat (currentIndex s + 1)) (history s) @ [v],
            currentIndex := int (length (take (nat (currentIndex s + 1)) (history s)))\<rparr>)"
  using assms by (auto simp: saveState_def splice_def Let_def min_def max_def)

lemma undo_noop: "currentIndex s \<le> 0 \<Longrightarrow> undo s = Inr s"
  by (simp add: undo_def canUndo_def)

lemma undo_moves:
  assumes "0 < currentIndex s" and "currentIndex s \<le> int (length (history s))"
    and "myForm s = Some x"
  shows "undo s =
     Inr (s\<lparr>currentIndex := currentIndex s - 1,
            myForm := Some (history s ! nat (currentIndex s - 1)),
            toasts := toasts s @ [UndoDone]\<rparr>)"
  using assms
  by (simp add: undo_def canUndo_def Let_def js_index_def setValue_def and_then_def success_def)

lemma redo_noop: "int (length (history s)) - 1 \<le> currentIndex s \<Longrightarrow> redo s = Inr s"
  by (simp add: redo_def canRedo_def)

lemma redo_moves:
  assumes "- 1 \<le> currentIndex s" and "currentIndex s < int (length (history s)) - 1"
    and "myForm s = Some x"
  shows "redo s =
     Inr (s\<lparr>currentIndex := currentIndex s + 1,
            myForm := Some (history s ! nat (currentIndex s + 1)),
            toasts := toasts s @ [RedoDone]\<rparr>)"
  using assms
  by (simp add: redo_def canRedo_def Let_def js_index_def setValue_def and_then_def success_def)

section \<open>Sequences of actions\<close>

lemma run_snoc: "run (acts @ [a]) s = state_after (step a (run acts s))"
  by (simp add: run_def)

lemma run_Nil: "run [] s = s"
  by (simp add: run_def)

lemma state_after_Inr: "state_after (Inr s) = s"
  by (simp add: state_after_def)

lemma initialized_eq:
  "initialized = \<lparr>myForm = Some emptyForm, history = [emptyForm], currentIndex = 0, toasts = []\<rparr>"
  by (simp add: initialized_def ngOnInit_def fresh_def saveState_def state_after_def)

lemma run_Cons: "run (a # acts) s = run acts (state_after (step a s))"
  by (simp add: run_def)

lemmas eval_defs = run_Cons run_Nil initialized_eq state_after_def edit_def saveState_def
  splice_def undo_def redo_def canUndo_def canRedo_def js_index_def setValue_def and_then_def
  success_def emptyForm_def named_def Let_def

lemma scenario_before_undo:
  "run [Edit Name (Some ''A''), Edit Name (Some ''AB'')] initialized =
     \<lparr>myForm = Some (named ''AB''), history = [emptyForm, named ''A'', named ''AB''],
      currentIndex = 2, toasts = []\<rparr>"
  by (simp add: eval_defs)

lemma scenario_after_undo:
  "run [Edit Name (Some ''A''), Edit Name (Some ''AB''), Undo] initialized =
     \<lparr>myForm = Some (named ''A''), history = [emptyForm, named ''A'', named ''AB''],
      currentIndex = 1, toasts = [UndoDone]\<rparr>"
  by (simp add: eval_defs)

lemma scenario_after_edit:
  "run [Edit Name (Some ''A''), Edit Name (Some ''AB''), Undo, Edit Name (Some ''AX'')]
      initialized =
     \<lparr>myForm = Some (named ''AX''), history = [emptyForm, named ''A'', named ''AX''],
      currentIndex = 2, toasts = [UndoDone]\<rparr>"
  by (simp add: eval_defs)

section \<open>The invariant of the initialised component\<close>

lemma consistent_initialized: "consistent initialized"
  by (simp add: initialized_eq consistent_def)

lemma consistent_saveState:
  assumes "consistent s"
  shows "\<exists>s'. saveState s = Inr s' \<and> consistent s' \<and>
           int (length (history s')) = currentIndex s' + 1"
proof -
  from assms obtain v where v: "myForm s = Some v" and c: "- 1 \<le> currentIndex s"
    by (auto simp: consistent_def)
  show ?thesis
    using v c by (simp add: saveState_Some [OF v c] consistent_def nth_append)
qed

lemma consistent_edit:
  assumes "consistent s"
  shows "\<exists>s'. edit f v s = Inr s' \<and> consistent s' \<and>
           int (length (history s')) = currentIndex s' + 1"
proof -
  from assms obtain x where x: "myForm s = Some x" and c: "- 1 \<le> currentIndex s"
    by (auto simp: consistent_def)
  let ?t = "s\<lparr>myForm := Some (setControl f v x)\<rparr>"
  have "myForm ?t = Some (setControl f v x)" and "- 1 \<le> currentIndex ?t"
    using c by simp_all
  from saveState_Some [OF this] show ?thesis
    using x c by (simp add: edit_def consistent_def nth_append)
qed

lemma consistent_undo:
  assumes "consistent s"
  shows "\<exists>s'. undo s = Inr s' \<and> consistent s'"
proof (cases "0 < currentIndex s")
  case True
  from assms obtain x where "myForm s = Some x" "currentIndex s \<le> int (length (history s))"
    by (auto simp: consistent_def)
  from undo_moves [OF True this(2) this(1)] show ?thesis
    using assms True by (simp add: consistent_def)
next
  case False
  then show ?thesis using assms by (simp add: undo_noop)
qed

lemma consistent_redo:
  assumes "consistent s"
  shows "\<exists>s'. redo s = Inr s' \<and> consistent s'"
proof (cases "currentIndex s < int (length (history s)) - 1")
  case True
  from assms obtain x where "myForm s = Some x" "- 1 \<le> currentIndex s"
    by (auto simp: consistent_def)
  from redo_moves [OF this(2) True this(1)] show ?thesis
    using assms True by (simp add: consistent_def)
next
  case False
  then show ?thesis using assms by (simp add: redo_noop)
qed

lemma consistent_step:
  assumes "consistent s"
  shows "\<exists>s'. step a s = Inr s' \<and> consistent s'"
proof (cases a)
  case SaveState
  then show ?thesis using consistent_saveState [OF assms] by auto
next
  case (Edit f v)
  then show ?thesis using consistent_edit [OF assms, of f v] by auto
next
  case Undo
  then show ?thesis using consistent_undo [OF assms] by simp
next
  case Redo
  then show ?thesis using consistent_redo [OF assms] by simp
qed

lemma consistent_run: "consistent (run acts initialized)"
proof (induction acts rule: rev_induct)
  case Nil
  show ?case by (simp add: run_Nil consistent_initialized)
next
  case (snoc a acts)
  from consistent_step [OF snoc, of a] show ?case
    by (auto simp: run_snoc state_after_Inr)
qed

lemma edit_at_tip:
  assumes "consistent s" and "int (length (history s)) = currentIndex s + 1"
  shows "\<exists>s'. edit f v s = Inr s' \<and> consistent s' \<and>
           length (history s') = length (history s) + 1 \<and>
           int (length (history s')) = currentIndex s' + 1"
proof -
  from assms obtain x where x: "myForm s = Some x" and c: "- 1 \<le> currentIndex s"
    by (auto simp: consistent_def)
  let ?t = "s\<lparr>myForm := Some (setControl f v x)\<rparr>"
  have "myForm ?t = Some (setControl f v x)" and "- 1 \<le> currentIndex ?t"
    using c by simp_all
  from saveState_Some [OF this] show ?thesis
    using x c assms(2) by (simp add: edit_def consistent_def nth_append)
qed

lemma run_edits:
  assumes "consistent s" and "int (length (history s)) = currentIndex s + 1"
  shows "consistent (run (map (\<lambda>(f, v). Edit f v) es) s) \<and>
         length (history (run (map (\<lambda>(f, v). Edit f v) es) s)) = length (history s) + length es \<and>
         int (length (history (run (map (\<lambda>(f, v). Edit f v) es) s))) =
           currentIndex (run (map (\<lambda>(f, v). Edit f v) es) s) + 1"
proof (induction es rule: rev_induct)
  case Nil
  show ?case using assms by (simp add: run_Nil)
next
  case (snoc e es)
  obtain f v where e: "e = (f, v)" by (cases e)
  let ?s = "run (map (\<lambda>(f, v). Edit f v) es) s"
  from snoc have "consistent ?s" and "int (length (history ?s)) = currentIndex ?s + 1"
    by simp_all
  from edit_at_tip [OF this, of f v] snoc show ?case
    by (auto simp: e run_snoc state_after_Inr)
qed

lemma history_setValue: "history (state_after (and_then (setValue v s) (success n))) = history s"
  by (simp add: setValue_def and_then_def success_def state_after_def split: option.splits)

section \<open>saveState\<close>

text \<open>
  C1. \<open>saveState\<close> reads the value of the form, keeps of the history the snapshots at
  the indices \<open>0..cursor\<close> (whatever lay beyond the cursor is dropped), appends the value
  read, and sets the cursor to the new last index. Nothing else of the component
  changes: the form and the notifications are as before. Here the form exists and the
  cursor is at least \<open>-1\<close>, as everywhere in the data model.
\<close>

theorem saveState_spec:
  assumes "myForm s = Some v" and "- 1 \<le> currentIndex s"
  shows "saveState s =
     Inr (s\<lparr>history := take (nat (currentIndex s + 1)) (history s) @ [v],
            currentIndex :=
              int (length (take (nat (currentIndex s + 1)) (history s) @ [v])) - 1\<rparr>)"
  using saveState_Some [OF assms] by simp

theorem saveState_spec_witness:
  "myForm \<lparr>myForm = Some (named ''AX''), history = [emptyForm, named ''A'', named ''AB''],
            currentIndex = 1, toasts = [UndoDone]\<rparr> = Some (named ''AX'') \<and>
   - 1 \<le> currentIndex \<lparr>myForm = Some (named ''AX''),
            history = [emptyForm, named ''A'', named ''AB''],
            currentIndex = 1, toasts = [UndoDone]\<rparr> \<and>
   saveState \<lparr>myForm = Some (named ''AX''), history = [emptyForm, named ''A'', named ''AB''],
            currentIndex = 1, toasts = [UndoDone]\<rparr> =
     Inr \<lparr>myForm = Some (named ''AX''), history = [emptyForm, named ''A'', named ''AX''],
            currentIndex = 2, toasts = [UndoDone]\<rparr>"
  using saveState_spec [of "\<lparr>myForm = Some (named ''AX''),
            history = [emptyForm, named ''A'', named ''AB''],
            currentIndex = 1, toasts = [UndoDone]\<rparr>" "named ''AX''"]
  by simp

text \<open>
  C2. In a state reached from the initialised component in which a redo is possible
  (the cursor is before the last snapshot), an edit succeeds, keeps exactly the
  snapshots up to the cursor and appends the edited form value; afterwards \<open>canRedo\<close>
  is false and \<open>redo\<close> changes nothing. The scenario of the specification: after the
  edits to "A" and "AB" the history is \<open>[S0, S1, S2]\<close> with cursor 2; \<open>undo\<close> gives
  cursor 1 and the form \<open>S1\<close>; the edit to "AX" gives \<open>[S0, S1, S3]\<close>, where \<open>redo\<close>
  is a no-op.
\<close>

theorem edit_after_undo_discards_redo:
  "(canRedo (run acts initialized) \<longrightarrow>
      (\<exists>x s'. myForm (run acts initialized) = Some x \<and>
         edit f v (run acts initialized) = Inr s' \<and>
         history s' =
           take (nat (currentIndex (run acts initialized) + 1)) (history (run acts initialized))
             @ [setControl f v x] \<and>
         currentIndex s' = currentIndex (run acts initialized) + 1 \<and>
         \<not> canRedo s' \<and> redo s' = Inr s')) \<and>
   history (run [Edit Name (Some ''A''), Edit Name (Some ''AB'')] initialized) =
     [emptyForm, named ''A'', named ''AB''] \<and>
   currentIndex (run [Edit Name (Some ''A''), Edit Name (Some ''AB'')] initialized) = 2 \<and>
   currentIndex (run [Edit Name (Some ''A''), Edit Name (Some ''AB''), Undo] initialized) = 1 \<and>
   myForm (run [Edit Name (Some ''A''), Edit Name (Some ''AB''), Undo] initialized) =
     Some (named ''A'') \<and>
   history (run [Edit Name (Some ''A''), Edit Name (Some ''AB''), Undo,
                 Edit Name (Some ''AX'')] initialized) =
     [emptyForm, named ''A'', named ''AX''] \<and>
   redo (run [Edit Name (Some ''A''), Edit Name (Some ''AB''), Undo,
              Edit Name (Some ''AX'')] initialized) =
     Inr (run [Edit Name (Some ''A''), Edit Name (Some ''AB''), Undo,
               Edit Name (Some ''AX'')] initialized)"
proof -
  let ?s = "run acts initialized"
  have general: "\<exists>x s'. myForm ?s = Some x \<and> edit f v ?s = Inr s' \<and>
         history s' = take (nat (currentIndex ?s + 1)) (history ?s) @ [setControl f v x] \<and>
         currentIndex s' = currentIndex ?s + 1 \<and> \<not> canRedo s' \<and> redo s' = Inr s'"
    if r: "canRedo ?s"
  proof -
    have "consistent ?s" by (rule consistent_run)
    then obtain x where x: "myForm ?s = Some x" and c: "0 \<le> currentIndex ?s"
      by (auto simp: consistent_def)
    from r have lt: "currentIndex ?s < int (length (history ?s)) - 1"
      by (simp add: canRedo_def)
    let ?t = "?s\<lparr>myForm := Some (setControl f v x)\<rparr>"
    have "myForm ?t = Some (setControl f v x)" and "- 1 \<le> currentIndex ?t"
      using c by simp_all
    from saveState_Some [OF this]
    have e: "edit f v ?s =
       Inr (?t\<lparr>history := take (nat (currentIndex ?s + 1)) (history ?s) @ [setControl f v x],
              currentIndex := int (length (take (nat (currentIndex ?s + 1)) (history ?s)))\<rparr>)"
      using x by (simp add: edit_def)
    have len: "int (length (take (nat (currentIndex ?s + 1)) (history ?s))) = currentIndex ?s + 1"
      using c lt by simp
    show ?thesis
      using x e len by (simp add: canRedo_def redo_noop)
  qed
  have last: "redo (run [Edit Name (Some ''A''), Edit Name (Some ''AB''), Undo,
              Edit Name (Some ''AX'')] initialized) =
     Inr (run [Edit Name (Some ''A''), Edit Name (Some ''AB''), Undo,
               Edit Name (Some ''AX'')] initialized)"
    by (simp add: scenario_after_edit redo_noop)
  show ?thesis
    using general last
    by (simp add: scenario_before_undo scenario_after_undo scenario_after_edit)
qed

theorem edit_after_undo_discards_redo_witness:
  "canRedo (run [Edit Name (Some ''A''), Edit Name (Some ''AB''), Undo] initialized) \<and>
   (\<exists>x s'. myForm (run [Edit Name (Some ''A''), Edit Name (Some ''AB''), Undo] initialized)
              = Some x \<and>
      edit Name (Some ''AX'')
        (run [Edit Name (Some ''A''), Edit Name (Some ''AB''), Undo] initialized) = Inr s' \<and>
      history s' = [emptyForm, named ''A''] @ [setControl Name (Some ''AX'') x] \<and>
      currentIndex s' = 2 \<and> \<not> canRedo s' \<and> redo s' = Inr s')"
proof -
  have h: "canRedo (run [Edit Name (Some ''A''), Edit Name (Some ''AB''), Undo] initialized)"
    by (simp add: scenario_after_undo canRedo_def)
  from edit_after_undo_discards_redo
    [of "[Edit Name (Some ''A''), Edit Name (Some ''AB''), Undo]" Name "Some ''AX''"] h
  show ?thesis by (simp add: scenario_after_undo)
qed

text \<open>
  C6. An edit of a component reached from the initialised one succeeds and leaves
  \<open>history.length = cursor + 1\<close>, so that no redo is possible; this holds after any
  sequence of actions that ends with an edit. After a sequence of \<open>n\<close> edits alone the
  history holds \<open>n + 1\<close> snapshots and the cursor is on the last one.
\<close>

theorem edit_leaves_cursor_last:
  "(\<exists>s'. edit f v (run acts initialized) = Inr s' \<and>
      int (length (history s')) = currentIndex s' + 1 \<and> \<not> canRedo s') \<and>
   int (length (history (run (acts @ [Edit f v]) initialized))) =
     currentIndex (run (acts @ [Edit f v]) initialized) + 1 \<and>
   length (history (run (map (\<lambda>(f, v). Edit f v) es) initialized)) = length es + 1 \<and>
   int (length (history (run (map (\<lambda>(f, v). Edit f v) es) initialized))) =
     currentIndex (run (map (\<lambda>(f, v). Edit f v) es) initialized) + 1"
proof -
  have "consistent (run acts initialized)" by (rule consistent_run)
  from consistent_edit [OF this, of f v]
  have one: "\<exists>s'. edit f v (run acts initialized) = Inr s' \<and>
      int (length (history s')) = currentIndex s' + 1 \<and> \<not> canRedo s'"
    by (auto simp: canRedo_def)
  then have two: "int (length (history (run (acts @ [Edit f v]) initialized))) =
     currentIndex (run (acts @ [Edit f v]) initialized) + 1"
    by (auto simp: run_snoc state_after_Inr)
  have tip: "int (length (history initialized)) = currentIndex initialized + 1"
    by (simp add: initialized_eq)
  from run_edits [OF consistent_initialized tip, of es] have three:
    "length (history (run (map (\<lambda>(f, v). Edit f v) es) initialized)) = length es + 1 \<and>
     int (length (history (run (map (\<lambda>(f, v). Edit f v) es) initialized))) =
       currentIndex (run (map (\<lambda>(f, v). Edit f v) es) initialized) + 1"
    by (simp add: initialized_eq)
  from one two three show ?thesis by blast
qed

section \<open>undo and redo\<close>

text \<open>
  C3. In every state \<open>undo\<close> is a no-op, leaving history, cursor and form as they
  are, unless the cursor is positive. In every state reached from the initialised
  component in which the cursor is positive, \<open>undo\<close> decrements the cursor by one and
  writes the snapshot at the new cursor, which is present, into the form; the history
  is as before, no snapshot is appended. In every such state \<open>undo\<close> returns: it does
  not throw.
\<close>

theorem undo_spec:
  "(currentIndex t \<le> 0 \<longrightarrow> undo t = Inr t) \<and>
   (0 < currentIndex (run acts initialized) \<longrightarrow>
      js_index (history (run acts initialized)) (currentIndex (run acts initialized) - 1) =
        Some (history (run acts initialized) ! nat (currentIndex (run acts initialized) - 1)) \<and>
      undo (run acts initialized) =
        Inr ((run acts initialized)
               \<lparr>currentIndex := currentIndex (run acts initialized) - 1,
                myForm := Some (history (run acts initialized) !
                                  nat (currentIndex (run acts initialized) - 1)),
                toasts := toasts (run acts initialized) @ [UndoDone]\<rparr>)) \<and>
   (\<exists>s'. undo (run acts initialized) = Inr s')"
proof (intro conjI impI)
  let ?s = "run acts initialized"
  have inv: "consistent ?s" by (rule consistent_run)
  then obtain x where x: "myForm ?s = Some x"
    and le: "currentIndex ?s \<le> int (length (history ?s))"
    by (auto simp: consistent_def)
  show "undo t = Inr t" if "currentIndex t \<le> 0"
    using that by (rule undo_noop)
  show "\<exists>s'. undo ?s = Inr s'"
    using consistent_undo [OF inv] by blast
  assume pos: "0 < currentIndex ?s"
  from pos le show "js_index (history ?s) (currentIndex ?s - 1) =
      Some (history ?s ! nat (currentIndex ?s - 1))"
    by (simp add: js_index_def)
  show "undo ?s = Inr (?s\<lparr>currentIndex := currentIndex ?s - 1,
                          myForm := Some (history ?s ! nat (currentIndex ?s - 1)),
                          toasts := toasts ?s @ [UndoDone]\<rparr>)"
    by (rule undo_moves [OF pos le x])
qed

theorem undo_spec_witness:
  "currentIndex initialized \<le> 0 \<and> undo initialized = Inr initialized \<and>
   0 < currentIndex (run [Edit Name (Some ''A''), Edit Name (Some ''AB'')] initialized) \<and>
   undo (run [Edit Name (Some ''A''), Edit Name (Some ''AB'')] initialized) =
     Inr \<lparr>myForm = Some (named ''A''), history = [emptyForm, named ''A'', named ''AB''],
          currentIndex = 1, toasts = [UndoDone]\<rparr>"
proof -
  have h0: "currentIndex initialized \<le> 0"
    by (simp add: initialized_eq)
  have h1: "0 < currentIndex (run [Edit Name (Some ''A''), Edit Name (Some ''AB'')] initialized)"
    by (simp add: scenario_before_undo)
  from undo_spec [of initialized "[Edit Name (Some ''A''), Edit Name (Some ''AB'')]"] h0 h1
  show ?thesis by (simp add: scenario_before_undo)
qed

text \<open>
  C4. In every state \<open>redo\<close> is a no-op, leaving history, cursor and form as they
  are, unless the cursor is below \<open>history.length - 1\<close>. In every state reached from
  the initialised component in which the cursor is below \<open>history.length - 1\<close>, \<open>redo\<close>
  increments the cursor by one and writes the snapshot at the new cursor, which is
  present, into the form; the history is as before, no snapshot is appended. In every
  such state \<open>redo\<close> returns: it does not throw.
\<close>

theorem redo_spec:
  "(int (length (history t)) - 1 \<le> currentIndex t \<longrightarrow> redo t = Inr t) \<and>
   (currentIndex (run acts initialized) < int (length (history (run acts initialized))) - 1 \<longrightarrow>
      js_index (history (run acts initialized)) (currentIndex (run acts initialized) + 1) =
        Some (history (run acts initialized) ! nat (currentIndex (run acts initialized) + 1)) \<and>
      redo (run acts initialized) =
        Inr ((run acts initialized)
               \<lparr>currentIndex := currentIndex (run acts initialized) + 1,
                myForm := Some (history (run acts initialized) !
                                  nat (currentIndex (run acts initialized) + 1)),
                toasts := toasts (run acts initialized) @ [RedoDone]\<rparr>)) \<and>
   (\<exists>s'. redo (run acts initialized) = Inr s')"
proof (intro conjI impI)
  let ?s = "run acts initialized"
  have inv: "consistent ?s" by (rule consistent_run)
  then obtain x where x: "myForm ?s = Some x"
    and ge: "- 1 \<le> currentIndex ?s" and nonneg: "0 \<le> currentIndex ?s"
    by (auto simp: consistent_def)
  show "redo t = Inr t" if "int (length (history t)) - 1 \<le> currentIndex t"
    using that by (rule redo_noop)
  show "\<exists>s'. redo ?s = Inr s'"
    using consistent_redo [OF inv] by blast
  assume lt: "currentIndex ?s < int (length (history ?s)) - 1"
  from lt nonneg show "js_index (history ?s) (currentIndex ?s + 1) =
      Some (history ?s ! nat (currentIndex ?s + 1))"
    by (simp add: js_index_def)
  show "redo ?s = Inr (?s\<lparr>currentIndex := currentIndex ?s + 1,
                          myForm := Some (history ?s ! nat (currentIndex ?s + 1)),
                          toasts := toasts ?s @ [RedoDone]\<rparr>)"
    by (rule redo_moves [OF ge lt x])
qed

theorem redo_spec_witness:
  "int (length (history initialized)) - 1 \<le> currentIndex initialized \<and>
   redo initialized = Inr initialized \<and>
   currentIndex (run [Edit Name (Some ''A''), Edit Name (Some ''AB''), Undo] initialized)
     < int (length (history
         (run [Edit Name (Some ''A''), Edit Name (Some ''AB''), Undo] initialized))) - 1 \<and>
   redo (run [Edit Name (Some ''A''), Edit Name (Some ''AB''), Undo] initialized) =
     Inr \<lparr>myForm = Some (named ''AB''), history = [emptyForm, named ''A'', named ''AB''],
          currentIndex = 2, toasts = [UndoDone, RedoDone]\<rparr>"
proof -
  have h0: "int (length (history initialized)) - 1 \<le> currentIndex initialized"
    by (simp add: initialized_eq)
  have h1: "currentIndex (run [Edit Name (Some ''A''), Edit Name (Some ''AB''), Undo] initialized)
     < int (length (history
         (run [Edit Name (Some ''A''), Edit Name (Some ''AB''), Undo] initialized))) - 1"
    by (simp add: scenario_after_undo)
  from redo_spec [of initialized "[Edit Name (Some ''A''), Edit Name (Some ''AB''), Undo]"] h0 h1
  show ?thesis by (simp add: scenario_after_undo)
qed

text \<open>
  C9. In every state, whether they return or throw, \<open>undo\<close> and \<open>redo\<close> leave the
  history as it was: same snapshots, same length. Of the component only the cursor and
  the form can differ afterwards (and the notification is logged): \<^verbatim>\<open>setValue\<close> with
  \<^verbatim>\<open>emitEvent: false\<close> does not run \<open>saveState\<close>.
\<close>

theorem undo_redo_keep_history:
  "history (state_after (undo s)) = history s \<and>
   length (history (state_after (undo s))) = length (history s) \<and>
   history (state_after (redo s)) = history s \<and>
   length (history (state_after (redo s))) = length (history s) \<and>
   state_after (undo s) =
     s\<lparr>currentIndex := currentIndex (state_after (undo s)),
       myForm := myForm (state_after (undo s)),
       toasts := toasts (state_after (undo s))\<rparr> \<and>
   state_after (redo s) =
     s\<lparr>currentIndex := currentIndex (state_after (redo s)),
       myForm := myForm (state_after (redo s)),
       toasts := toasts (state_after (redo s))\<rparr>"
proof -
  have u: "history (state_after (undo s)) = history s"
    by (simp add: undo_def Let_def history_setValue state_after_Inr)
  have r: "history (state_after (redo s)) = history s"
    by (simp add: redo_def Let_def history_setValue state_after_Inr)
  have frame: "t = s\<lparr>currentIndex := currentIndex t, myForm := myForm t, toasts := toasts t\<rparr>"
    if "history t = history s" for t :: component
    using that by (cases s, cases t) simp
  from u r frame [OF u] frame [OF r] show ?thesis by simp
qed

text \<open>
  C7. In a state reached from the initialised component in which \<open>canUndo\<close> holds,
  \<open>undo\<close> followed by \<open>redo\<close> returns and gives back the state before the \<open>undo\<close>, but
  for the two notifications: same cursor, same form value, same history.
\<close>

theorem undo_redo_round_trip:
  "canUndo (run acts initialized) \<longrightarrow>
     and_then (undo (run acts initialized)) redo =
       Inr ((run acts initialized)
              \<lparr>toasts := toasts (run acts initialized) @ [UndoDone, RedoDone]\<rparr>) \<and>
     currentIndex (state_after (and_then (undo (run acts initialized)) redo)) =
       currentIndex (run acts initialized) \<and>
     myForm (state_after (and_then (undo (run acts initialized)) redo)) =
       myForm (run acts initialized) \<and>
     history (state_after (and_then (undo (run acts initialized)) redo)) =
       history (run acts initialized)"
proof
  let ?s = "run acts initialized"
  assume "canUndo ?s"
  then have pos: "0 < currentIndex ?s" by (simp add: canUndo_def)
  have "consistent ?s" by (rule consistent_run)
  then have x: "myForm ?s = Some (history ?s ! nat (currentIndex ?s))"
    and le: "currentIndex ?s \<le> int (length (history ?s))"
    and lt: "currentIndex ?s < int (length (history ?s))"
    by (simp_all add: consistent_def)
  let ?s1 = "?s\<lparr>currentIndex := currentIndex ?s - 1,
                 myForm := Some (history ?s ! nat (currentIndex ?s - 1)),
                 toasts := toasts ?s @ [UndoDone]\<rparr>"
  have u: "undo ?s = Inr ?s1" by (rule undo_moves [OF pos le x])
  have "- 1 \<le> currentIndex ?s1" and "currentIndex ?s1 < int (length (history ?s1)) - 1"
    and "myForm ?s1 = Some (history ?s ! nat (currentIndex ?s - 1))"
    using pos lt by simp_all
  from redo_moves [OF this]
  have r: "redo ?s1 = Inr (?s\<lparr>toasts := toasts ?s @ [UndoDone, RedoDone]\<rparr>)"
    using x by simp
  have "and_then (undo ?s) redo = Inr (?s\<lparr>toasts := toasts ?s @ [UndoDone, RedoDone]\<rparr>)"
    by (simp add: u r and_then_def)
  then show "and_then (undo ?s) redo = Inr (?s\<lparr>toasts := toasts ?s @ [UndoDone, RedoDone]\<rparr>) \<and>
     currentIndex (state_after (and_then (undo ?s) redo)) = currentIndex ?s \<and>
     myForm (state_after (and_then (undo ?s) redo)) = myForm ?s \<and>
     history (state_after (and_then (undo ?s) redo)) = history ?s"
    by (simp add: state_after_Inr)
qed

theorem undo_redo_round_trip_witness:
  "canUndo (run [Edit Name (Some ''A''), Edit Name (Some ''AB'')] initialized) \<and>
   and_then (undo (run [Edit Name (Some ''A''), Edit Name (Some ''AB'')] initialized)) redo =
     Inr \<lparr>myForm = Some (named ''AB''), history = [emptyForm, named ''A'', named ''AB''],
          currentIndex = 2, toasts = [UndoDone, RedoDone]\<rparr>"
proof -
  have h: "canUndo (run [Edit Name (Some ''A''), Edit Name (Some ''AB'')] initialized)"
    by (simp add: scenario_before_undo canUndo_def)
  from undo_redo_round_trip [of "[Edit Name (Some ''A''), Edit Name (Some ''AB'')]"] h
  show ?thesis by (simp add: scenario_before_undo)
qed

section \<open>The cursor stays inside the history\<close>

text \<open>
  C5. Before \<^verbatim>\<open>ngOnInit\<close> the history is empty and the cursor is \<open>-1\<close>. \<^verbatim>\<open>ngOnInit\<close>
  returns the component with one snapshot, the empty form, and the cursor at 0. In
  every state reached from there by a sequence of \<open>saveState\<close>, edits, \<open>undo\<close> and
  \<open>redo\<close> the history is not empty, the cursor lies in \<open>[0, history.length - 1]\<close> and
  indexes a snapshot; so the cursor is \<open>-1\<close> in no state but the one before
  initialisation.
\<close>

theorem cursor_in_range:
  "currentIndex fresh = - 1 \<and> history fresh = [] \<and>
   ngOnInit fresh = Inr initialized \<and>
   initialized =
     \<lparr>myForm = Some emptyForm, history = [emptyForm], currentIndex = 0, toasts = []\<rparr> \<and>
   0 \<le> currentIndex (run acts initialized) \<and>
   currentIndex (run acts initialized) \<le> int (length (history (run acts initialized))) - 1 \<and>
   history (run acts initialized) \<noteq> [] \<and>
   js_index (history (run acts initialized)) (currentIndex (run acts initialized)) \<noteq> None \<and>
   currentIndex (run acts initialized) \<noteq> - 1"
proof -
  have "consistent (run acts initialized)" by (rule consistent_run)
  then have "0 \<le> currentIndex (run acts initialized) \<and>
     currentIndex (run acts initialized) < int (length (history (run acts initialized)))"
    by (simp add: consistent_def)
  moreover have "ngOnInit fresh = Inr initialized"
    by (simp add: initialized_eq ngOnInit_def fresh_def saveState_def)
  ultimately show ?thesis
    by (auto simp: initialized_eq fresh_def js_index_def)
qed

text \<open>
  C10. In every state reached from the initialised component, the snapshot that \<open>undo\<close>
  reads under its guard, \<^verbatim>\<open>history[cursor - 1]\<close>, and the one that \<open>redo\<close> reads under
  its guard, \<^verbatim>\<open>history[cursor + 1]\<close>, are present, and both methods return without
  throwing.
\<close>

theorem guarded_lookup_in_bounds:
  "(canUndo (run acts initialized) \<longrightarrow>
      js_index (history (run acts initialized)) (currentIndex (run acts initialized) - 1)
        \<noteq> None) \<and>
   (canRedo (run acts initialized) \<longrightarrow>
      js_index (history (run acts initialized)) (currentIndex (run acts initialized) + 1)
        \<noteq> None) \<and>
   (\<exists>s'. undo (run acts initialized) = Inr s') \<and>
   (\<exists>s'. redo (run acts initialized) = Inr s')"
proof -
  have inv: "consistent (run acts initialized)" by (rule consistent_run)
  from consistent_undo [OF inv] consistent_redo [OF inv] inv show ?thesis
    by (auto simp: consistent_def canUndo_def canRedo_def js_index_def)
qed

theorem guarded_lookup_in_bounds_witness:
  "canUndo (run [Edit Name (Some ''A''), Edit Name (Some ''AB''), Undo] initialized) \<and>
   canRedo (run [Edit Name (Some ''A''), Edit Name (Some ''AB''), Undo] initialized) \<and>
   js_index (history (run [Edit Name (Some ''A''), Edit Name (Some ''AB''), Undo] initialized))
     (currentIndex (run [Edit Name (Some ''A''), Edit Name (Some ''AB''), Undo] initialized) - 1)
     \<noteq> None \<and>
   js_index (history (run [Edit Name (Some ''A''), Edit Name (Some ''AB''), Undo] initialized))
     (currentIndex (run [Edit Name (Some ''A''), Edit Name (Some ''AB''), Undo] initialized) + 1)
     \<noteq> None"
proof -
  have h: "canUndo (run [Edit Name (Some ''A''), Edit Name (Some ''AB''), Undo] initialized) \<and>
    canRedo (run [Edit Name (Some ''A''), Edit Name (Some ''AB''), Undo] initialized)"
    by (simp add: scenario_after_undo canUndo_def canRedo_def)
  from guarded_lookup_in_bounds [of "[Edit Name (Some ''A''), Edit Name (Some ''AB''), Undo]"] h
  show ?thesis by blast
qed

section \<open>Capability checks\<close>

text \<open>
  C8. \<open>canUndo\<close> and \<open>canRedo\<close> only read the cursor and the length of the history and
  change nothing: in every state \<open>canUndo\<close> is false exactly when the cursor is at
  most 0, and \<open>canRedo\<close> is false exactly when the cursor is at least
  \<open>history.length - 1\<close>.
\<close>

theorem can_checks_boundary:
  "(\<not> canUndo s) = (currentIndex s \<le> 0) \<and>
   (\<not> canRedo s) = (currentIndex s \<ge> int (length (history s)) - 1)"
  by (auto simp: canUndo_def canRedo_def)

end
